theory Spec2Isabelle
  imports Complex_Main
begin

section \<open>The bucket hydrology model (bucketHydrology.py)\<close>

text \<open>
  The module defines two classes. \<^verbatim>\<open>reservoir\<close> is one storage layer: it takes water
  (\<^verbatim>\<open>recharge\<close>) and loses it at a rate proportional to what it holds
  (\<^verbatim>\<open>discharge\<close>). \<^verbatim>\<open>buckets\<close> is a list of reservoirs, top layer first, which
  \<^verbatim>\<open>update\<close> drives for one time step and \<^verbatim>\<open>run\<close> for a whole rainfall series.

  Conventions of the embedding:
  \<^item> Python floats are real numbers: rounding, overflow and NaN are not modelled.
  \<^item> The module is Python 2 (it uses the \<^verbatim>\<open>print\<close> statement and imports nothing
    from \<^verbatim>\<open>__future__\<close>), where \<^verbatim>\<open>/\<close> on two ints is floor division. The only
    division between values of the caller is \<^verbatim>\<open>-dt/self.t_efold\<close>, so the time step
    and the e-folding time are values of type \<open>pynum\<close>, an int or a float. Every other
    number is only added, subtracted, multiplied and compared, which gives the same
    value for an int as for the float equal to it, and is a real number here.
  \<^item> \<^verbatim>\<open>Hmax\<close> alone may be \<^verbatim>\<open>np.inf\<close> (its default), so it has a type of its own.
  \<^item> An attribute that does not exist yet (\<^verbatim>\<open>H_exfiltrated\<close> and \<^verbatim>\<open>H_infiltrated\<close>
    before the first \<^verbatim>\<open>discharge\<close>, \<^verbatim>\<open>Q\<close> and \<^verbatim>\<open>time\<close> before the first
    \<^verbatim>\<open>run\<close>) and an attribute holding \<^verbatim>\<open>None\<close> are both \<open>None\<close>.
  \<^item> A method that mutates its object returns the object's new state; an exception is
    a value of type \<open>error\<close>.
  \<^item> The reservoirs of a list are distinct objects (no reservoir occurs twice).
  \<^item> \<^verbatim>\<open>print\<close> statements and the unused attribute \<^verbatim>\<open>Hout\<close> are left out.
\<close>

datatype error =
    ZeroDivisionError
  | ValueError
  | IndexError
  | TypeError
  | AttributeError
  | SystemExit string

subsection \<open>Python 2 numbers\<close>

datatype pynum = is_int: PyInt int | PyFloat real

primrec to_real :: "pynum \<Rightarrow> real" where
  "to_real (PyInt i) = of_int i"
| "to_real (PyFloat x) = x"

text \<open>Unary minus keeps the type.\<close>

primrec py_neg :: "pynum \<Rightarrow> pynum" where
  "py_neg (PyInt i) = PyInt (- i)"
| "py_neg (PyFloat x) = PyFloat (- x)"

text \<open>
  \<^verbatim>\<open>a / b\<close>: the floor of the quotient for two ints, the quotient as a float as soon
  as one operand is a float, and \<^verbatim>\<open>ZeroDivisionError\<close> for a zero divisor in both
  cases. On \<open>int\<close>, \<open>div\<close> rounds towards minus infinity as Python does.
\<close>

definition py_div :: "pynum \<Rightarrow> pynum \<Rightarrow> error + pynum" where
  "py_div a b =
     (case (a, b) of
        (PyInt i, PyInt j) \<Rightarrow>
          if j = 0 then Inl ZeroDivisionError else Inr (PyInt (i div j))
      | _ \<Rightarrow>
          if to_real b = 0 then Inl ZeroDivisionError
          else Inr (PyFloat (to_real a / to_real b)))"

subsection \<open>class reservoir\<close>

datatype capacity = Finite real | Infinite

record reservoir =
  Hwater :: real
  Hmax :: capacity
  t_efold :: pynum
  excess :: real
  f_to_discharge :: real
  H_exfiltrated :: "real option"
  H_infiltrated :: "real option"

text \<open>\<^verbatim>\<open>reservoir.__init__(self, t_efold, f_to_discharge=1., Hmax=np.inf)\<close>\<close>

definition reservoir_init :: "pynum \<Rightarrow> real \<Rightarrow> capacity \<Rightarrow> reservoir" where
  "reservoir_init t f hmax =
     \<lparr>Hwater = 0, Hmax = hmax, t_efold = t, excess = 0, f_to_discharge = f,
      H_exfiltrated = None, H_infiltrated = None\<rparr>"

text \<open>
  \<^verbatim>\<open>reservoir.recharge(self, H)\<close>. The local \<^verbatim>\<open>excess\<close> starts at 0 and is added to
  \<^verbatim>\<open>self.excess\<close> on every path. Against \<^verbatim>\<open>np.inf\<close> the test
  \<^verbatim>\<open>self.Hwater+H <= self.Hmax\<close> holds for every real number, which is the
  \<open>Infinite\<close> case. The last \<open>else\<close> is the path on which neither \<^verbatim>\<open>elif\<close> holds.
\<close>

definition recharge :: "reservoir \<Rightarrow> real \<Rightarrow> reservoir" where
  "recharge r H =
     (if Hwater r < 0 then r\<lparr>Hwater := 0, excess := excess r + 0\<rparr>
      else
        (case Hmax r of
           Infinite \<Rightarrow> r\<lparr>Hwater := Hwater r + H, excess := excess r + 0\<rparr>
         | Finite m \<Rightarrow>
             if Hwater r + H \<le> m then r\<lparr>Hwater := Hwater r + H, excess := excess r + 0\<rparr>
             else if Hwater r + H > m
               then r\<lparr>Hwater := m, excess := excess r + (Hwater r + H - m)\<rparr>
             else r\<lparr>excess := excess r + 0\<rparr>))"

text \<open>
  \<^verbatim>\<open>reservoir.discharge(self, dt)\<close>. The division \<^verbatim>\<open>-dt/self.t_efold\<close> is the first
  thing evaluated, so a zero \<^verbatim>\<open>t_efold\<close> raises before any attribute is assigned.
  \<^verbatim>\<open>np.exp\<close> takes an int as the float equal to it.
\<close>

definition discharge :: "reservoir \<Rightarrow> pynum \<Rightarrow> error + reservoir" where
  "discharge r dt =
     (case py_div (py_neg dt) (t_efold r) of
        Inl e \<Rightarrow> Inl e
      | Inr x \<Rightarrow>
          (let dH = Hwater r * (1 - exp (to_real x))
           in Inr (r\<lparr>H_exfiltrated := Some (excess r + dH * f_to_discharge r),
                     H_infiltrated := Some (dH * (1 - f_to_discharge r)),
                     Hwater := Hwater r - dH,
                     excess := 0\<rparr>)))"

subsection \<open>class buckets\<close>

text \<open>
  \<^verbatim>\<open>self.ET\<close> is \<^verbatim>\<open>None\<close>, the array stored by \<^verbatim>\<open>set_evapotranspiration\<close>, or the
  single number stored by \<^verbatim>\<open>evapotranspirationChang2019\<close>.
\<close>

datatype et_value = ET_scalar real | ET_series "real list"

record buckets =
  reservoirs :: "reservoir list"
  dt :: pynum
  rain :: "real list option"
  ET :: "et_value option"
  Chang_I :: real
  Chang_a_i :: real
  Q :: "real list option"
  time :: "real list option"

text \<open>
  \<^verbatim>\<open>buckets.__init__(self, reservoir_list, dt=1)\<close>; the default time step is the int
  \<open>PyInt 1\<close>.
\<close>

definition buckets_init :: "reservoir list \<Rightarrow> pynum \<Rightarrow> buckets" where
  "buckets_init reservoir_list tstep =
     \<lparr>reservoirs = reservoir_list, dt = tstep, rain = None, ET = None,
      Chang_I = 41.47044637,
      Chang_a_i = 0.000000675 * 41.47044637 ^ 3 - 0.0000772 * 41.47044637 ^ 2
                  + 0.017912 * 41.47044637 + 0.49239,
      Q = None, time = None\<rparr>"

definition set_rainfall_time_series :: "buckets \<Rightarrow> real list \<Rightarrow> buckets" where
  "set_rainfall_time_series b xs = b\<lparr>rain := Some xs\<rparr>"

definition set_evapotranspiration :: "buckets \<Rightarrow> real list \<Rightarrow> buckets" where
  "set_evapotranspiration b ys = b\<lparr>ET := Some (ET_series ys)\<rparr>"

text \<open>
  The loop of \<^verbatim>\<open>buckets.update\<close>, \<^verbatim>\<open>for i in range(1, len(self.reservoirs))\<close>, from
  index \<open>i\<close> on, with the discharge \<open>Qi\<close> summed so far. It is entered at \<open>i = 1\<close>, so
  \<open>i - 1\<close> is never the Python index \<open>-1\<close>. An exception leaves the reservoirs as they
  are at that moment.
\<close>

function update_loop ::
  "reservoir list \<Rightarrow> pynum \<Rightarrow> nat \<Rightarrow> real \<Rightarrow> (error + real) \<times> reservoir list" where
  "update_loop rs tstep i Qi =
     (if i < length rs then
        (case H_infiltrated (rs ! (i - 1)) of
           None \<Rightarrow> (Inl AttributeError, rs)
         | Some H \<Rightarrow>
             (let rs1 = rs[i := recharge (rs ! i) H]
              in case discharge (rs1 ! i) tstep of
                   Inl e \<Rightarrow> (Inl e, rs1)
                 | Inr r' \<Rightarrow>
                     (let rs2 = rs1[i := r']
                      in case H_exfiltrated (rs2 ! i) of
                           None \<Rightarrow> (Inl AttributeError, rs2)
                         | Some x \<Rightarrow> update_loop rs2 tstep (Suc i) (Qi + x))))
      else (Inr Qi, rs))"
  by pat_completeness auto
termination
  by (relation "measure (\<lambda>(rs, tstep, i, Qi). length rs - i)") auto

declare update_loop.simps [simp del]

text \<open>
  \<^verbatim>\<open>buckets.update(self, rain_at_timestep, ET_at_timestep=0.)\<close>. On an empty reservoir
  list \<^verbatim>\<open>self.reservoirs[0]\<close> raises.
\<close>

definition update :: "buckets \<Rightarrow> real \<Rightarrow> real \<Rightarrow> (error + real) \<times> buckets" where
  "update b rain_at_timestep ET_at_timestep =
     (let recharge_at_timestep = rain_at_timestep - ET_at_timestep
      in case reservoirs b of
           [] \<Rightarrow> (Inl IndexError, b)
         | r0 # _ \<Rightarrow>
             (let rs1 = (reservoirs b)[0 := recharge r0 recharge_at_timestep]
              in case discharge (rs1 ! 0) (dt b) of
                   Inl e \<Rightarrow> (Inl e, b\<lparr>reservoirs := rs1\<rparr>)
                 | Inr r0' \<Rightarrow>
                     (let rs2 = rs1[0 := r0']
                      in case H_exfiltrated (rs2 ! 0) of
                           None \<Rightarrow> (Inl AttributeError, b\<lparr>reservoirs := rs2\<rparr>)
                         | Some Qi \<Rightarrow>
                             (case update_loop rs2 (dt b) 1 Qi of
                                (res, rs3) \<Rightarrow> (res, b\<lparr>reservoirs := rs3\<rparr>)))))"

text \<open>
  Python 2's \<^verbatim>\<open>float ** float\<close>: a negative base with a fractional exponent raises
  \<^verbatim>\<open>ValueError\<close>, zero to a negative power raises \<^verbatim>\<open>ZeroDivisionError\<close>.
\<close>

definition float_pow :: "real \<Rightarrow> real \<Rightarrow> error + real" where
  "float_pow x y =
     (if y = 0 then Inr 1
      else if x = 0 then (if y < 0 then Inl ZeroDivisionError else Inr 0)
      else if x < 0 then
        (if y \<noteq> of_int \<lfloor>y\<rfloor> then Inl ValueError else Inr (x powi \<lfloor>y\<rfloor>))
      else Inr (x powr y))"

text \<open>
  \<^verbatim>\<open>buckets.evapotranspirationChang2019(self, Tmax, Tmin, photoperiod)\<close> for three
  Python numbers (on numpy arrays the power gives \<^verbatim>\<open>nan\<close> where it raises here). Both summands are evaluated whatever the comparisons give: a comparison is a
  \<^verbatim>\<open>bool\<close>, which multiplies as 0 or 1. Nothing is assigned when the power raises.
\<close>

definition evapotranspirationChang2019 ::
  "buckets \<Rightarrow> real \<Rightarrow> real \<Rightarrow> real \<Rightarrow> error + buckets" where
  "evapotranspirationChang2019 b Tmax Tmin photoperiod =
     (let Teff = 0.5 * 0.69 * (3 * Tmax - Tmin);
          C = photoperiod / 360
      in if Chang_I b = 0 then Inl ZeroDivisionError
         else
           (case float_pow (10 * Teff / Chang_I b) (Chang_a_i b) of
              Inl e \<Rightarrow> Inl e
            | Inr p \<Rightarrow>
                Inr (b\<lparr>ET := Some (ET_scalar
                  (C * (- 415.85 + 32.24 * Teff - 0.43 * Teff ^ 2) * of_bool (Teff \<ge> 26)
                   + 16 * C * p * of_bool (Teff > 0) * of_bool (Teff < 26)))\<rparr>)))"

text \<open>
  The subscriptions of \<^verbatim>\<open>buckets.run\<close>. \<^verbatim>\<open>rain[ti]\<close> reads the argument \<^verbatim>\<open>rain\<close>,
  which is \<^verbatim>\<open>None\<close> when the caller left it out; \<^verbatim>\<open>self.ET[ti]\<close> reads the attribute.
  Neither \<^verbatim>\<open>None\<close> nor a float can be subscripted.
\<close>

definition getitem :: "real list \<Rightarrow> nat \<Rightarrow> error + real" where
  "getitem xs i = (if i < length xs then Inr (xs ! i) else Inl IndexError)"

definition rain_getitem :: "real list option \<Rightarrow> nat \<Rightarrow> error + real" where
  "rain_getitem rain_arg ti =
     (case rain_arg of None \<Rightarrow> Inl TypeError | Some xs \<Rightarrow> getitem xs ti)"

definition ET_getitem :: "et_value option \<Rightarrow> nat \<Rightarrow> error + real" where
  "ET_getitem et ti =
     (case et of
        None \<Rightarrow> Inl TypeError
      | Some (ET_scalar v) \<Rightarrow> Inl TypeError
      | Some (ET_series ys) \<Rightarrow> getitem ys ti)"

text \<open>\<^verbatim>\<open>self.Q.append(Qi)\<close>\<close>

definition Q_append :: "buckets \<Rightarrow> real \<Rightarrow> error + buckets" where
  "Q_append b Qi =
     (case Q b of None \<Rightarrow> Inl AttributeError | Some qs \<Rightarrow> Inr (b\<lparr>Q := Some (qs @ [Qi])\<rparr>))"

text \<open>
  The two loops of \<^verbatim>\<open>buckets.run\<close> over \<^verbatim>\<open>range(len(self.rain))\<close>: with
  evapotranspiration, \<^verbatim>\<open>self.update(rain[ti], self.ET[ti])\<close>, and without,
  \<^verbatim>\<open>self.update(rain[ti])\<close>. The result is the exception that ended the loop, if any,
  and the state reached.
\<close>

fun run_loop_ET :: "real list option \<Rightarrow> nat list \<Rightarrow> buckets \<Rightarrow> error option \<times> buckets" where
  "run_loop_ET rain_arg [] b = (None, b)"
| "run_loop_ET rain_arg (ti # tis) b =
     (case rain_getitem rain_arg ti of
        Inl e \<Rightarrow> (Some e, b)
      | Inr x \<Rightarrow>
          (case ET_getitem (ET b) ti of
             Inl e \<Rightarrow> (Some e, b)
           | Inr y \<Rightarrow>
               (case update b x y of
                  (Inl e, b') \<Rightarrow> (Some e, b')
                | (Inr Qi, b') \<Rightarrow>
                    (case Q_append b' Qi of
                       Inl e \<Rightarrow> (Some e, b')
                     | Inr b'' \<Rightarrow> run_loop_ET rain_arg tis b''))))"

fun run_loop :: "real list option \<Rightarrow> nat list \<Rightarrow> buckets \<Rightarrow> error option \<times> buckets" where
  "run_loop rain_arg [] b = (None, b)"
| "run_loop rain_arg (ti # tis) b =
     (case rain_getitem rain_arg ti of
        Inl e \<Rightarrow> (Some e, b)
      | Inr x \<Rightarrow>
          (case update b x 0 of
             (Inl e, b') \<Rightarrow> (Some e, b')
           | (Inr Qi, b') \<Rightarrow>
               (case Q_append b' Qi of
                  Inl e \<Rightarrow> (Some e, b')
                | Inr b'' \<Rightarrow> run_loop rain_arg tis b'')))"

text \<open>
  \<^verbatim>\<open>buckets.run(self, rain=None, ET=False)\<close>; the parameters are \<open>rain_arg\<close> and
  \<open>ET_arg\<close> here, apart from the attributes of the same names. \<^verbatim>\<open>sys.exit\<close> raises
  \<^verbatim>\<open>SystemExit\<close> with its message. The final \<^verbatim>\<open>np.array(self.Q)\<close> keeps the values.
\<close>

definition run :: "buckets \<Rightarrow> real list option \<Rightarrow> bool \<Rightarrow> error option \<times> buckets" where
  "run b rain_arg ET_arg =
     (let b1 = b\<lparr>Q := Some []\<rparr>;
          b2 = (case rain_arg of
                  Some xs \<Rightarrow> set_rainfall_time_series b1 xs
                | None \<Rightarrow> b1)
      in case rain b2 of
           None \<Rightarrow> (Some (SystemExit ''Please set the rainfall time series''), b2)
         | Some srain \<Rightarrow>
             (let b3 = b2\<lparr>time :=
                        Some (map (\<lambda>k. real k * to_real (dt b2)) [0..<length srain])\<rparr>
              in if ET_arg then run_loop_ET rain_arg [0..<length srain] b3
                 else run_loop rain_arg [0..<length srain] b3))"


subsection \<open>The time step as the specification words it\<close>

text \<open>
  The specification describes a step of the cascade along the list: the top reservoir is
  recharged with the net input and discharged, and every reservoir after it is
  recharged with what the one before it infiltrated, then discharged. \<open>cascade\<close> is that
  description, with the reservoirs after the step as its result (\<open>None\<close> when a
  discharge fails), and \<open>exfiltrated_sum\<close> adds up what the reservoirs exfiltrated.
  Neither is taken from the source; \<open>update\<close> is compared with them.
\<close>

fun cascade :: "reservoir list \<Rightarrow> real \<Rightarrow> pynum \<Rightarrow> reservoir list option" where
  "cascade [] inflow tstep = Some []"
| "cascade (r # rs) inflow tstep =
     (case discharge (recharge r inflow) tstep of
        Inl e \<Rightarrow> None
      | Inr r' \<Rightarrow>
          (case H_infiltrated r' of
             None \<Rightarrow> None
           | Some infiltrated \<Rightarrow> map_option ((#) r') (cascade rs infiltrated tstep)))"

fun exfiltrated_sum :: "reservoir list \<Rightarrow> real option" where
  "exfiltrated_sum [] = Some 0"
| "exfiltrated_sum (r # rs) =
     (case H_exfiltrated r of
        None \<Rightarrow> None
      | Some x \<Rightarrow> map_option ((+) x) (exfiltrated_sum rs))"


subsection \<open>Reservoirs the program can produce\<close>

text \<open>
  The states a reservoir object takes when it is only handled through the two classes:
  built by the constructor, then recharged, discharged, or given a water level by
  \<^verbatim>\<open>buckets.initialize\<close> (\<^verbatim>\<open>reservoir.Hwater = Hlist[i]\<close>).
\<close>

inductive reachable :: "reservoir \<Rightarrow> bool" where
  created: "reachable (reservoir_init t f hmax)"
| recharged: "reachable r \<Longrightarrow> reachable (recharge r H)"
| discharged: "reachable r \<Longrightarrow> discharge r tstep = Inr r' \<Longrightarrow> reachable r'"
| initialized: "reachable r \<Longrightarrow> reachable (r\<lparr>Hwater := level\<rparr>)"

code_pred reachable .

section \<open>A single reservoir\<close>

lemma py_div_ok: "to_real b \<noteq> 0 \<Longrightarrow> \<exists>x. py_div a b = Inr x"
  by (cases a; cases b) (simp_all add: py_div_def)

lemma py_div_true_division:
  "\<not> (is_int a \<and> is_int b) \<Longrightarrow> to_real b \<noteq> 0 \<Longrightarrow>
   py_div (py_neg a) b = Inr (PyFloat (- to_real a / to_real b))"
  by (cases a; cases b) (simp_all add: py_div_def)

lemma py_div_floor_division:
  "j \<noteq> 0 \<Longrightarrow> py_div (py_neg (PyInt i)) (PyInt j) = Inr (PyInt ((- i) div j))"
  by (simp add: py_div_def)

lemma discharge_Inr:
  "py_div (py_neg tstep) (t_efold r) = Inr x \<Longrightarrow>
   discharge r tstep =
     Inr (r\<lparr>H_exfiltrated := Some (excess r + Hwater r * (1 - exp (to_real x)) * f_to_discharge r),
            H_infiltrated := Some (Hwater r * (1 - exp (to_real x)) * (1 - f_to_discharge r)),
            Hwater := Hwater r - Hwater r * (1 - exp (to_real x)),
            excess := 0\<rparr>)"
  by (simp add: discharge_def Let_def)

lemma recharge_fields [simp]:
  "Hmax (recharge r H) = Hmax r"
  "t_efold (recharge r H) = t_efold r"
  "f_to_discharge (recharge r H) = f_to_discharge r"
  by (simp_all add: recharge_def split: capacity.splits)

lemma recharge_unbounded:
  "Hmax r = Infinite \<Longrightarrow> 0 \<le> Hwater r \<Longrightarrow> recharge r H = r\<lparr>Hwater := Hwater r + H\<rparr>"
  by (simp add: recharge_def)

lemma recharge_discharge_ok:
  assumes "to_real (t_efold r) \<noteq> 0"
  shows "\<exists>r' x y. discharge (recharge r H) tstep = Inr r' \<and> t_efold r' = t_efold r
            \<and> H_exfiltrated r' = Some x \<and> H_infiltrated r' = Some y"
proof -
  obtain x where "py_div (py_neg tstep) (t_efold (recharge r H)) = Inr x"
    using assms py_div_ok [of "t_efold r" "py_neg tstep"] by auto
  then show ?thesis by (simp add: discharge_Inr)
qed

subsection \<open>Discharge\<close>

text \<open>
  As soon as the time step or the e-folding time is a float, \<^verbatim>\<open>discharge\<close> depletes by
  \<open>dH = Hwater * (1 - exp (- dt / t_efold))\<close> and makes the four assignments with it.
  The pending excess goes to exfiltration only: whatever excess is pending, the
  infiltrated amount is the same.
\<close>

lemma discharge_true_division:
  assumes "\<not> (is_int tstep \<and> is_int (t_efold r))"
    and "0 < to_real tstep" and "0 < to_real (t_efold r)"
  shows "let dH = Hwater r * (1 - exp (- to_real tstep / to_real (t_efold r)))
         in discharge r tstep =
              Inr (r\<lparr>H_exfiltrated := Some (excess r + dH * f_to_discharge r),
                     H_infiltrated := Some (dH * (1 - f_to_discharge r)),
                     Hwater := Hwater r - dH,
                     excess := 0\<rparr>)
            \<and> (\<forall>e. map_sum id H_infiltrated (discharge (r\<lparr>excess := e\<rparr>) tstep)
                       = Inr (Some (dH * (1 - f_to_discharge r))))"
proof -
  have "py_div (py_neg tstep) (t_efold r) = Inr (PyFloat (- to_real tstep / to_real (t_efold r)))"
    using assms by (intro py_div_true_division) simp_all
  then show ?thesis by (simp add: discharge_def Let_def)
qed

text \<open>
  For two ints the exponent is the floor of the quotient instead.
\<close>

lemma discharge_floor_division:
  assumes "t_efold r = PyInt j" and "j \<noteq> 0"
  shows "let dH = Hwater r * (1 - exp (of_int ((- i) div j)))
         in discharge r (PyInt i) =
              Inr (r\<lparr>H_exfiltrated := Some (excess r + dH * f_to_discharge r),
                     H_infiltrated := Some (dH * (1 - f_to_discharge r)),
                     Hwater := Hwater r - dH,
                     excess := 0\<rparr>)"
  using assms by (simp add: discharge_def Let_def py_div_def)

text \<open>
  Claim C2 says that for every reservoir state, every time step \<open>dt > 0\<close> and e-folding
  time \<open>t_efold > 0\<close>, \<^verbatim>\<open>discharge\<close> depletes the reservoir by
  \<open>dH = Hwater * (1 - exp (- dt / t_efold))\<close>. For a reservoir built with the int
  e-folding time 5 and holding 10, discharged with the int time step 1 (the default
  time step of \<^verbatim>\<open>buckets\<close>), \<^verbatim>\<open>-dt/self.t_efold\<close> is \<open>- 1\<close>, not \<open>- 1 / 5\<close>: the
  reservoir is depleted by \<open>10 * (1 - exp (- 1))\<close>, which is not the claimed
  \<open>10 * (1 - exp (- 1 / 5))\<close>.
\<close>

theorem discharge_int_division_floors:
  "discharge ((reservoir_init (PyInt 5) 1 Infinite)\<lparr>Hwater := 10\<rparr>) (PyInt 1)
     = Inr \<lparr>Hwater = 10 - 10 * (1 - exp (- 1)), Hmax = Infinite, t_efold = PyInt 5,
            excess = 0, f_to_discharge = 1,
            H_exfiltrated = Some (0 + 10 * (1 - exp (- 1)) * 1),
            H_infiltrated = Some (10 * (1 - exp (- 1)) * (1 - 1))\<rparr>
   \<and> (10::real) * (1 - exp (- 1)) \<noteq> 10 * (1 - exp (- 1 / 5))"
  by (simp add: discharge_def py_div_def reservoir_init_def Let_def)

subsection \<open>Recharge\<close>

text \<open>
  Claim C3. For every reservoir with \<open>0 \<le> Hwater\<close> and \<open>Hwater + amount\<close> above its
  capacity \<open>m\<close>, \<^verbatim>\<open>recharge\<close> sets \<open>Hwater\<close> to exactly \<open>m\<close> and adds
  \<open>Hwater + amount - m\<close> to \<open>excess\<close>. In particular a reservoir of capacity 10 that
  holds 8 and has no excess pending, recharged with 5, ends with \<open>Hwater = 10\<close> and
  \<open>excess = 3\<close>, and the next \<^verbatim>\<open>discharge\<close> puts those 3 into \<open>H_exfiltrated\<close> in
  full, on top of the share \<open>f_to_discharge\<close> of the depleted amount, and none of them
  into \<open>H_infiltrated\<close>, whatever \<open>f_to_discharge\<close> is. The depleted amount is
  \<open>10 * (1 - exp x)\<close> for the value \<open>x\<close> of \<^verbatim>\<open>-dt/self.t_efold\<close>, which is
  \<open>- dt / t_efold\<close> unless both are ints.
\<close>

theorem recharge_overflow:
  "(Hmax r = Finite m \<and> 0 \<le> Hwater r \<and> m < Hwater r + amount \<longrightarrow>
      recharge r amount = r\<lparr>Hwater := m, excess := excess r + (Hwater r + amount - m)\<rparr>)
   \<and> (Hmax q = Finite 10 \<and> Hwater q = 8 \<and> excess q = 0 \<longrightarrow>
        Hwater (recharge q 5) = 10 \<and> excess (recharge q 5) = 3
        \<and> (to_real (t_efold q) \<noteq> 0 \<longrightarrow>
             (\<exists>x. py_div (py_neg tstep) (t_efold q) = Inr x
                \<and> (\<not> (is_int tstep \<and> is_int (t_efold q)) \<longrightarrow>
                      to_real x = - to_real tstep / to_real (t_efold q))
                \<and> discharge (recharge q 5) tstep =
                    Inr (q\<lparr>H_exfiltrated :=
                             Some (3 + 10 * (1 - exp (to_real x)) * f_to_discharge q),
                           H_infiltrated :=
                             Some (10 * (1 - exp (to_real x)) * (1 - f_to_discharge q)),
                           Hwater := 10 - 10 * (1 - exp (to_real x)),
                           excess := 0\<rparr>))))"
proof -
  have 1: "Hmax r = Finite m \<and> 0 \<le> Hwater r \<and> m < Hwater r + amount \<longrightarrow>
      recharge r amount = r\<lparr>Hwater := m, excess := excess r + (Hwater r + amount - m)\<rparr>"
    by (simp add: recharge_def)
  have 2: "\<exists>x. py_div (py_neg tstep) (t_efold q) = Inr x
              \<and> (\<not> (is_int tstep \<and> is_int (t_efold q)) \<longrightarrow>
                    to_real x = - to_real tstep / to_real (t_efold q))
              \<and> discharge (recharge q 5) tstep =
                  Inr (q\<lparr>H_exfiltrated :=
                           Some (3 + 10 * (1 - exp (to_real x)) * f_to_discharge q),
                         H_infiltrated :=
                           Some (10 * (1 - exp (to_real x)) * (1 - f_to_discharge q)),
                         Hwater := 10 - 10 * (1 - exp (to_real x)),
                         excess := 0\<rparr>)"
    if q: "Hmax q = Finite 10" "Hwater q = 8" "excess q = 0" and t: "to_real (t_efold q) \<noteq> 0"
  proof -
    obtain x where x: "py_div (py_neg tstep) (t_efold q) = Inr x"
      using t py_div_ok by blast
    have "to_real x = - to_real tstep / to_real (t_efold q)"
      if "\<not> (is_int tstep \<and> is_int (t_efold q))"
      using py_div_true_division [OF that t] x by simp
    moreover have "recharge q 5 = q\<lparr>Hwater := 10, excess := 3\<rparr>"
      using q by (simp add: recharge_def)
    then have "discharge (recharge q 5) tstep =
                  Inr (q\<lparr>H_exfiltrated :=
                           Some (3 + 10 * (1 - exp (to_real x)) * f_to_discharge q),
                         H_infiltrated :=
                           Some (10 * (1 - exp (to_real x)) * (1 - f_to_discharge q)),
                         Hwater := 10 - 10 * (1 - exp (to_real x)),
                         excess := 0\<rparr>)"
      using x by (simp add: discharge_def Let_def)
    ultimately show ?thesis using x by blast
  qed
  have 3: "Hmax q = Finite 10 \<and> Hwater q = 8 \<and> excess q = 0 \<longrightarrow>
        Hwater (recharge q 5) = 10 \<and> excess (recharge q 5) = 3"
    by (simp add: recharge_def)
  show ?thesis using 1 2 3 by blast
qed

theorem recharge_overflow_witness:
  "Hmax ((reservoir_init (PyFloat 5) (1/2) (Finite 10))\<lparr>Hwater := 8\<rparr>) = Finite 10
   \<and> (0::real) \<le> Hwater ((reservoir_init (PyFloat 5) (1/2) (Finite 10))\<lparr>Hwater := 8\<rparr>)
   \<and> 10 < Hwater ((reservoir_init (PyFloat 5) (1/2) (Finite 10))\<lparr>Hwater := 8\<rparr>) + 5
   \<and> excess ((reservoir_init (PyFloat 5) (1/2) (Finite 10))\<lparr>Hwater := 8\<rparr>) = 0
   \<and> to_real (t_efold ((reservoir_init (PyFloat 5) (1/2) (Finite 10))\<lparr>Hwater := 8\<rparr>)) \<noteq> 0
   \<and> \<not> (is_int (PyInt 1)
          \<and> is_int (t_efold ((reservoir_init (PyFloat 5) (1/2) (Finite 10))\<lparr>Hwater := 8\<rparr>)))
   \<and> recharge ((reservoir_init (PyFloat 5) (1/2) (Finite 10))\<lparr>Hwater := 8\<rparr>) 5
        = (reservoir_init (PyFloat 5) (1/2) (Finite 10))\<lparr>Hwater := 10, excess := 3\<rparr>
   \<and> discharge (recharge ((reservoir_init (PyFloat 5) (1/2) (Finite 10))\<lparr>Hwater := 8\<rparr>) 5)
        (PyInt 1)
        = Inr \<lparr>Hwater = 10 - 10 * (1 - exp (- 1 / 5)), Hmax = Finite 10, t_efold = PyFloat 5,
               excess = 0, f_to_discharge = 1/2,
               H_exfiltrated = Some (3 + 10 * (1 - exp (- 1 / 5)) * (1/2)),
               H_infiltrated = Some (10 * (1 - exp (- 1 / 5)) * (1 - 1/2))\<rparr>"
  using recharge_overflow
    [of "(reservoir_init (PyFloat 5) (1/2) (Finite 10))\<lparr>Hwater := 8\<rparr>" 10 5
        "(reservoir_init (PyFloat 5) (1/2) (Finite 10))\<lparr>Hwater := 8\<rparr>" "PyInt 1"]
  by (auto simp: reservoir_init_def)

text \<open>
  Claim C4. A reservoir whose water level is strictly negative when \<^verbatim>\<open>recharge\<close> is
  entered ends the call with water level exactly 0, whatever the amount (positive or
  negative): the amount is not added, and the pending excess keeps its value, as does
  every other attribute.
\<close>

theorem recharge_negative_level_discards_amount:
  "Hwater r < 0 \<Longrightarrow> recharge r amount = r\<lparr>Hwater := 0\<rparr>"
  by (simp add: recharge_def)

theorem recharge_negative_level_discards_amount_witness:
  "Hwater ((reservoir_init (PyFloat 5) 1 Infinite)\<lparr>Hwater := - 3, excess := 2\<rparr>) < 0
   \<and> recharge ((reservoir_init (PyFloat 5) 1 Infinite)\<lparr>Hwater := - 3, excess := 2\<rparr>) 7
       = (reservoir_init (PyFloat 5) 1 Infinite)\<lparr>Hwater := 0, excess := 2\<rparr>"
  using recharge_negative_level_discards_amount
    [of "(reservoir_init (PyFloat 5) 1 Infinite)\<lparr>Hwater := - 3, excess := 2\<rparr>" 7]
  by (simp add: reservoir_init_def)

subsection \<open>Mass balance\<close>

text \<open>
  A reservoir of unbounded capacity never has excess pending: the constructor starts it
  at 0, \<^verbatim>\<open>recharge\<close> adds to it only on overflow, and \<^verbatim>\<open>discharge\<close> resets it.
\<close>

lemma reachable_unbounded_no_excess:
  "reachable r \<Longrightarrow> Hmax r = Infinite \<Longrightarrow> excess r = 0"
proof (induction rule: reachable.induct)
  case (created t f hmax)
  then show ?case by (simp add: reservoir_init_def)
next
  case (recharged r H)
  then have "excess r = 0" by simp
  moreover have "Hmax r = Infinite" using recharged.prems by simp
  ultimately show ?case by (simp add: recharge_def)
next
  case (discharged r tstep r')
  then show ?case by (auto simp: discharge_def Let_def split: sum.splits)
next
  case (initialized r level)
  then show ?case by simp
qed

lemma mass_balance_no_excess:
  assumes "excess r = 0" and "Hmax r = Infinite" and "0 \<le> Hwater r"
    and "to_real (t_efold r) \<noteq> 0"
  shows "\<exists>r' exf inf. discharge (recharge r amount) tstep = Inr r'
           \<and> H_exfiltrated r' = Some exf \<and> H_infiltrated r' = Some inf
           \<and> exf + inf = Hwater r + amount - Hwater r'"
proof -
  obtain x where "py_div (py_neg tstep) (t_efold r) = Inr x"
    using assms(4) py_div_ok by blast
  then show ?thesis
    using assms(1-3) by (simp add: recharge_unbounded discharge_Inr) (simp add: algebra_simps)
qed

text \<open>
  Claim C5 (mass conservation). For a reservoir of capacity \<open>\<infinity>\<close> with \<open>0 \<le> Hwater\<close>
  on entry, one step, \<^verbatim>\<open>recharge(amount)\<close> followed by \<^verbatim>\<open>discharge(tstep)\<close>, is
  carried out (for a nonzero e-folding time) and satisfies
  \<open>H_exfiltrated + H_infiltrated = Hwater_before + amount - Hwater_after\<close>: no water
  is created or lost. The reservoir is any one the program can produce.
\<close>

theorem mass_balance:
  assumes "reachable r" and "Hmax r = Infinite" and "0 \<le> Hwater r"
    and "to_real (t_efold r) \<noteq> 0"
  shows "\<exists>r' exf inf. discharge (recharge r amount) tstep = Inr r'
           \<and> H_exfiltrated r' = Some exf \<and> H_infiltrated r' = Some inf
           \<and> exf + inf = Hwater r + amount - Hwater r'"
proof -
  have "excess r = 0" using assms(1,2) by (rule reachable_unbounded_no_excess)
  then show ?thesis using assms(2-4) by (rule mass_balance_no_excess)
qed

theorem mass_balance_witness:
  "reachable ((reservoir_init (PyFloat 5) (1/4) Infinite)\<lparr>Hwater := 8\<rparr>)
   \<and> Hmax ((reservoir_init (PyFloat 5) (1/4) Infinite)\<lparr>Hwater := 8\<rparr>) = Infinite
   \<and> 0 \<le> Hwater ((reservoir_init (PyFloat 5) (1/4) Infinite)\<lparr>Hwater := 8\<rparr>)
   \<and> to_real (t_efold ((reservoir_init (PyFloat 5) (1/4) Infinite)\<lparr>Hwater := 8\<rparr>)) \<noteq> 0
   \<and> (\<exists>r' exf inf.
         discharge (recharge ((reservoir_init (PyFloat 5) (1/4) Infinite)\<lparr>Hwater := 8\<rparr>) 2)
           (PyInt 1) = Inr r'
         \<and> H_exfiltrated r' = Some exf \<and> H_infiltrated r' = Some inf
         \<and> exf + inf = 8 + 2 - Hwater r')"
proof -
  have h: "reachable ((reservoir_init (PyFloat 5) (1/4) Infinite)\<lparr>Hwater := 8\<rparr>)"
    by (simp add: reachable.created reachable.initialized)
  show ?thesis
    using h mass_balance [OF h, of 2 "PyInt 1"] by (simp add: reservoir_init_def)
qed

subsection \<open>Evapotranspiration larger than the storage\<close>

text \<open>
  Claim C6 says that a reservoir holding 2, recharged with \<open>- 5\<close>, has water level 0
  right after that call. It has not: the level was not negative on entry, so the amount
  is added, and the call ends with level \<open>- 3\<close>.
\<close>

theorem recharge_et_floor_counterexample:
  "Hwater (recharge ((reservoir_init (PyFloat 5) 1 Infinite)\<lparr>Hwater := 2\<rparr>) (- 5)) \<noteq> 0"
  by (simp add: recharge_def reservoir_init_def)

text \<open>
  Claim C6, amended. A reservoir holding 2 whose capacity is at least \<open>- 3\<close> (the default
  \<open>\<infinity>\<close> in particular), recharged with \<open>- 5\<close>, has water level \<open>- 3\<close> right after that
  call. The level returns to 0 on entry to the next \<^verbatim>\<open>recharge\<close> only, which drops its
  own amount, whether or not a \<^verbatim>\<open>discharge\<close> came in between: a discharge leaves the
  level negative.
\<close>

theorem recharge_et_goes_negative:
  assumes "Hwater r = 2" and "Hmax r = Infinite \<or> Hmax r = Finite m \<and> - 3 \<le> m"
  shows "Hwater (recharge r (- 5)) = - 3
         \<and> recharge (recharge r (- 5)) amount = (recharge r (- 5))\<lparr>Hwater := 0\<rparr>
         \<and> (to_real (t_efold r) \<noteq> 0 \<longrightarrow>
              (\<exists>r'. discharge (recharge r (- 5)) tstep = Inr r' \<and> Hwater r' < 0
                    \<and> recharge r' amount = r'\<lparr>Hwater := 0\<rparr>))"
proof -
  have l: "Hwater (recharge r (- 5)) = - 3"
    using assms by (auto simp: recharge_def)
  then have n: "recharge (recharge r (- 5)) amount = (recharge r (- 5))\<lparr>Hwater := 0\<rparr>"
    by (simp add: recharge_def)
  have "\<exists>r'. discharge (recharge r (- 5)) tstep = Inr r' \<and> Hwater r' < 0
              \<and> recharge r' amount = r'\<lparr>Hwater := 0\<rparr>" if te: "to_real (t_efold r) \<noteq> 0"
  proof -
    obtain x where x: "py_div (py_neg tstep) (t_efold (recharge r (- 5))) = Inr x"
      using te py_div_ok [of "t_efold r" "py_neg tstep"] by auto
    let ?r' = "(recharge r (- 5))
                 \<lparr>H_exfiltrated := Some (excess (recharge r (- 5))
                     + - 3 * (1 - exp (to_real x)) * f_to_discharge r),
                  H_infiltrated := Some (- 3 * (1 - exp (to_real x)) * (1 - f_to_discharge r)),
                  Hwater := - 3 - - 3 * (1 - exp (to_real x)),
                  excess := 0\<rparr>"
    have d: "discharge (recharge r (- 5)) tstep = Inr ?r'"
      using x l by (simp add: discharge_Inr)
    have "Hwater ?r' = - 3 * exp (to_real x)" by (simp add: algebra_simps)
    then have neg: "Hwater ?r' < 0" by simp
    then have "recharge ?r' amount = ?r'\<lparr>Hwater := 0\<rparr>"
      unfolding recharge_def by simp
    then show ?thesis using d neg by blast
  qed
  then show ?thesis using l n by blast
qed

theorem recharge_et_goes_negative_witness:
  "Hwater ((reservoir_init (PyFloat 5) 1 Infinite)\<lparr>Hwater := 2\<rparr>) = 2
   \<and> Hmax ((reservoir_init (PyFloat 5) 1 Infinite)\<lparr>Hwater := 2\<rparr>) = Infinite
   \<and> to_real (t_efold ((reservoir_init (PyFloat 5) 1 Infinite)\<lparr>Hwater := 2\<rparr>)) \<noteq> 0
   \<and> Hwater (recharge ((reservoir_init (PyFloat 5) 1 Infinite)\<lparr>Hwater := 2\<rparr>) (- 5)) = - 3
   \<and> recharge (recharge ((reservoir_init (PyFloat 5) 1 Infinite)\<lparr>Hwater := 2\<rparr>) (- 5)) 4
      = (recharge ((reservoir_init (PyFloat 5) 1 Infinite)\<lparr>Hwater := 2\<rparr>) (- 5))
          \<lparr>Hwater := 0\<rparr>
   \<and> (\<exists>r'. discharge (recharge ((reservoir_init (PyFloat 5) 1 Infinite)\<lparr>Hwater := 2\<rparr>) (- 5))
             (PyInt 1) = Inr r'
           \<and> Hwater r' < 0 \<and> recharge r' 4 = r'\<lparr>Hwater := 0\<rparr>)"
  using recharge_et_goes_negative
    [of "(reservoir_init (PyFloat 5) 1 Infinite)\<lparr>Hwater := 2\<rparr>" 0 4 "PyInt 1"]
  by (simp add: reservoir_init_def)

section \<open>The cascade\<close>

subsection \<open>One time step\<close>

text \<open>
  The loop of \<open>update\<close> from index \<open>i\<close> on does to the reservoirs from \<open>i\<close> on what
  \<open>cascade\<close> describes, fed with what reservoir \<open>i - 1\<close> infiltrated, and leaves the
  reservoirs before \<open>i\<close> alone.
\<close>

lemma update_loop_cascade:
  assumes "0 < i" and "i \<le> length rs"
    and "\<forall>r\<in>set (drop i rs). to_real (t_efold r) \<noteq> 0"
    and "H_infiltrated (rs ! (i - 1)) = Some H"
  shows "\<exists>rs' q. cascade (drop i rs) H tstep = Some rs' \<and> exfiltrated_sum rs' = Some q
           \<and> update_loop rs tstep i Qi = (Inr (Qi + q), take i rs @ rs')"
  using assms
proof (induction "length rs - i" arbitrary: rs i Qi H)
  case 0
  then have "i = length rs" by simp
  then show ?case by (subst update_loop.simps) simp
next
  case (Suc n)
  then have lt: "i < length rs" by simp
  have dr: "drop i rs = rs ! i # drop (Suc i) rs"
    using lt by (simp add: Cons_nth_drop_Suc)
  have "to_real (t_efold (rs ! i)) \<noteq> 0" using Suc.prems(3) dr by simp
  then obtain r' x y where
    d: "discharge (recharge (rs ! i) H) tstep = Inr r'"
    and ex: "H_exfiltrated r' = Some x" and inf: "H_infiltrated r' = Some y"
    using recharge_discharge_ok by blast
  let ?rs2 = "rs[i := r']"
  have step: "update_loop rs tstep i Qi = update_loop ?rs2 tstep (Suc i) (Qi + x)"
    using lt d ex Suc.prems(4) by (subst update_loop.simps) simp
  have d2: "drop (Suc i) ?rs2 = drop (Suc i) rs" by (simp add: drop_update_cancel)
  have "n = length ?rs2 - Suc i" using Suc.hyps(2) by simp
  moreover have "0 < Suc i" by simp
  moreover have "Suc i \<le> length ?rs2" using lt by simp
  moreover have "\<forall>r\<in>set (drop (Suc i) ?rs2). to_real (t_efold r) \<noteq> 0"
    using Suc.prems(3) dr d2 by simp
  moreover have "H_infiltrated (?rs2 ! (Suc i - 1)) = Some y" using lt inf by simp
  ultimately obtain rs'' q' where
    c: "cascade (drop (Suc i) ?rs2) y tstep = Some rs''"
    and s: "exfiltrated_sum rs'' = Some q'"
    and u: "update_loop ?rs2 tstep (Suc i) (Qi + x)
            = (Inr (Qi + x + q'), take (Suc i) ?rs2 @ rs'')"
    using Suc.hyps(1) [of ?rs2 "Suc i" y "Qi + x"] by blast
  have tk: "take (Suc i) ?rs2 = take i rs @ [r']"
    using lt by (simp add: take_Suc_conv_app_nth)
  have "cascade (drop i rs) H tstep = Some (r' # rs'')"
    using dr d inf c d2 by simp
  moreover have "exfiltrated_sum (r' # rs'') = Some (x + q')"
    using ex s by simp
  moreover have "update_loop rs tstep i Qi = (Inr (Qi + (x + q')), take i rs @ (r' # rs''))"
    using step u tk by (simp add: add.assoc)
  ultimately show ?case by blast
qed

text \<open>
  Claim C1. For every \<^verbatim>\<open>buckets\<close> instance with a non-empty reservoir list (and nonzero
  e-folding times, so that no discharge raises), \<^verbatim>\<open>update(rain_at_timestep,
  ET_at_timestep)\<close> does exactly what \<open>cascade\<close> describes: \<^verbatim>\<open>recharge\<close> with
  \<open>rain_at_timestep - ET_at_timestep\<close> then \<^verbatim>\<open>discharge(dt)\<close> on reservoir 0, then
  for each later reservoir in list order \<^verbatim>\<open>recharge\<close> with what the reservoir before
  it infiltrated, then \<^verbatim>\<open>discharge(dt)\<close>. It returns the sum of what all reservoirs
  exfiltrated in that step, and changes nothing but the reservoirs.
\<close>

theorem update_is_cascade:
  assumes "reservoirs b \<noteq> []" and "\<forall>r\<in>set (reservoirs b). to_real (t_efold r) \<noteq> 0"
  shows "\<exists>rs' q. cascade (reservoirs b) (rain_at_timestep - ET_at_timestep) (dt b) = Some rs'
           \<and> exfiltrated_sum rs' = Some q
           \<and> update b rain_at_timestep ET_at_timestep = (Inr q, b\<lparr>reservoirs := rs'\<rparr>)"
proof -
  obtain r0 rest where rs: "reservoirs b = r0 # rest"
    using assms(1) by (cases "reservoirs b") auto
  have "to_real (t_efold r0) \<noteq> 0" using assms(2) rs by simp
  then obtain r' x y where
    d: "discharge (recharge r0 (rain_at_timestep - ET_at_timestep)) (dt b) = Inr r'"
    and ex: "H_exfiltrated r' = Some x" and inf: "H_infiltrated r' = Some y"
    using recharge_discharge_ok by blast
  let ?rs2 = "r' # rest"
  have "\<forall>r\<in>set (drop 1 ?rs2). to_real (t_efold r) \<noteq> 0" using assms(2) rs by simp
  moreover have "H_infiltrated (?rs2 ! (1 - 1)) = Some y" using inf by simp
  ultimately obtain rs'' q' where
    c: "cascade (drop 1 ?rs2) y (dt b) = Some rs''" and s: "exfiltrated_sum rs'' = Some q'"
    and u: "update_loop ?rs2 (dt b) 1 x = (Inr (x + q'), take 1 ?rs2 @ rs'')"
    using update_loop_cascade [of 1 ?rs2 y "dt b" x] by auto
  have "cascade (reservoirs b) (rain_at_timestep - ET_at_timestep) (dt b) = Some (r' # rs'')"
    using rs d inf c by simp
  moreover have "exfiltrated_sum (r' # rs'') = Some (x + q')" using ex s by simp
  moreover have "update b rain_at_timestep ET_at_timestep
                 = (Inr (x + q'), b\<lparr>reservoirs := r' # rs''\<rparr>)"
    using rs d ex u by (simp add: update_def)
  ultimately show ?thesis by blast
qed

theorem update_is_cascade_witness:
  "reservoirs (buckets_init [reservoir_init (PyFloat 5) (1/2) Infinite, reservoir_init (PyInt 10) 1 (Finite 4)]
        (PyInt 1))
     \<noteq> []
   \<and> to_real (t_efold (reservoir_init (PyFloat 5) (1/2) Infinite)) \<noteq> 0
   \<and> to_real (t_efold (reservoir_init (PyInt 10) 1 (Finite 4))) \<noteq> 0
   \<and> (\<exists>rs' q.
         cascade [reservoir_init (PyFloat 5) (1/2) Infinite, reservoir_init (PyInt 10) 1 (Finite 4)]
           (10 - 0) (PyInt 1)
           = Some rs'
         \<and> exfiltrated_sum rs' = Some q
         \<and> update
             (buckets_init [reservoir_init (PyFloat 5) (1/2) Infinite, reservoir_init (PyInt 10) 1 (Finite 4)]
        (PyInt 1))
             10 0
           = (Inr q,
              (buckets_init [reservoir_init (PyFloat 5) (1/2) Infinite, reservoir_init (PyInt 10) 1 (Finite 4)]
        (PyInt 1))
                \<lparr>reservoirs := rs'\<rparr>))"
  using update_is_cascade
    [of "buckets_init [reservoir_init (PyFloat 5) (1/2) Infinite, reservoir_init (PyInt 10) 1 (Finite 4)]
        (PyInt 1)" 10 0]
  by (simp add: buckets_init_def reservoir_init_def)

subsection \<open>A run with the rainfall passed as argument\<close>

lemma discharge_t_efold: "discharge r tstep = Inr r' \<Longrightarrow> t_efold r' = t_efold r"
  by (auto simp: discharge_def Let_def split: sum.splits)

lemma cascade_t_efold:
  "cascade rs H tstep = Some rs' \<Longrightarrow> map t_efold rs' = map t_efold rs"
proof (induction rs arbitrary: H rs')
  case Nil
  then show ?case by simp
next
  case (Cons r rs)
  from Cons.prems obtain r1 y rs1 where
    d: "discharge (recharge r H) tstep = Inr r1" and c: "cascade rs y tstep = Some rs1"
    and e: "rs' = r1 # rs1"
    by (auto split: sum.splits option.splits)
  have "t_efold r1 = t_efold r" using discharge_t_efold [OF d] by simp
  moreover have "map t_efold rs1 = map t_efold rs" using c by (rule Cons.IH)
  ultimately show ?case using e by simp
qed

lemma cascade_update_ok:
  assumes "reservoirs b \<noteq> []" and "0 \<notin> set (map (\<lambda>r. to_real (t_efold r)) (reservoirs b))"
  shows "\<exists>q rs'. update b x y = (Inr q, b\<lparr>reservoirs := rs'\<rparr>)
           \<and> rs' \<noteq> [] \<and> 0 \<notin> set (map (\<lambda>r. to_real (t_efold r)) rs')"
proof -
  obtain r0 rest where rs: "reservoirs b = r0 # rest"
    using assms(1) by (cases "reservoirs b") auto
  have t0: "to_real (t_efold r0) \<noteq> 0" using assms(2) rs by auto
  then obtain r' v w where
    d: "discharge (recharge r0 (x - y)) (dt b) = Inr r'" and te: "t_efold r' = t_efold r0"
    and ex: "H_exfiltrated r' = Some v" and inf: "H_infiltrated r' = Some w"
    using recharge_discharge_ok by blast
  let ?rs2 = "r' # rest"
  have "\<forall>r\<in>set (drop 1 ?rs2). to_real (t_efold r) \<noteq> 0" using assms(2) rs by auto
  moreover have "H_infiltrated (?rs2 ! (1 - 1)) = Some w" using inf by simp
  ultimately obtain rs'' q' where
    c: "cascade (drop 1 ?rs2) w (dt b) = Some rs''"
    and u: "update_loop ?rs2 (dt b) 1 v = (Inr (v + q'), take 1 ?rs2 @ rs'')"
    using update_loop_cascade [of 1 ?rs2 w "dt b" v] by auto
  have "cascade rest w (dt b) = Some rs''" using c by simp
  then have m: "map t_efold rs'' = map t_efold rest" by (rule cascade_t_efold)
  have "map (\<lambda>r. to_real (t_efold r)) rs'' = map (\<lambda>r. to_real (t_efold r)) rest"
    using arg_cong [OF m, of "map to_real"] by (simp add: comp_def)
  then have "0 \<notin> set (map (\<lambda>r. to_real (t_efold r)) (r' # rs''))"
    using assms(2) rs te by simp
  moreover have "update b x y = (Inr (v + q'), b\<lparr>reservoirs := r' # rs''\<rparr>)"
    using rs d ex u by (simp add: update_def)
  ultimately show ?thesis by blast
qed

lemma run_loop_ok:
  assumes "\<forall>ti\<in>set tis. ti < length xs"
    and "reservoirs b \<noteq> []" and "0 \<notin> set (map (\<lambda>r. to_real (t_efold r)) (reservoirs b))" and "Q b = Some qs"
  shows "\<exists>b' qs'. run_loop (Some xs) tis b = (None, b') \<and> Q b' = Some (qs @ qs')
           \<and> length qs' = length tis \<and> rain b' = rain b"
  using assms
proof (induction tis arbitrary: b qs)
  case Nil
  then show ?case by simp
next
  case (Cons ti tis)
  obtain q rs' where u: "update b (xs ! ti) 0 = (Inr q, b\<lparr>reservoirs := rs'\<rparr>)"
    and ne: "rs' \<noteq> []" and te: "0 \<notin> set (map (\<lambda>r. to_real (t_efold r)) rs')"
    using cascade_update_ok [OF Cons.prems(2,3)] by blast
  let ?b'' = "b\<lparr>reservoirs := rs', Q := Some (qs @ [q])\<rparr>"
  have step: "run_loop (Some xs) (ti # tis) b = run_loop (Some xs) tis ?b''"
    using Cons.prems(1,4) u by (simp add: rain_getitem_def getitem_def Q_append_def)
  have "\<exists>b' qs'. run_loop (Some xs) tis ?b'' = (None, b') \<and> Q b' = Some ((qs @ [q]) @ qs')
           \<and> length qs' = length tis \<and> rain b' = rain ?b''"
    using Cons.prems(1) ne te by (intro Cons.IH) simp_all
  then obtain b' qs' where "run_loop (Some xs) tis ?b'' = (None, b')"
    "Q b' = Some (qs @ (q # qs'))" "length (q # qs') = length (ti # tis)" "rain b' = rain b"
    by auto
  then show ?case using step by metis
qed

lemma run_loop_ET_ok:
  assumes "\<forall>ti\<in>set tis. ti < length xs \<and> ti < length ys"
    and "reservoirs b \<noteq> []" and "0 \<notin> set (map (\<lambda>r. to_real (t_efold r)) (reservoirs b))" and "Q b = Some qs"
    and "ET b = Some (ET_series ys)"
  shows "\<exists>b' qs'. run_loop_ET (Some xs) tis b = (None, b') \<and> Q b' = Some (qs @ qs')
           \<and> length qs' = length tis \<and> rain b' = rain b"
  using assms
proof (induction tis arbitrary: b qs)
  case Nil
  then show ?case by simp
next
  case (Cons ti tis)
  obtain q rs' where u: "update b (xs ! ti) (ys ! ti) = (Inr q, b\<lparr>reservoirs := rs'\<rparr>)"
    and ne: "rs' \<noteq> []" and te: "0 \<notin> set (map (\<lambda>r. to_real (t_efold r)) rs')"
    using cascade_update_ok [OF Cons.prems(2,3)] by blast
  let ?b'' = "b\<lparr>reservoirs := rs', Q := Some (qs @ [q])\<rparr>"
  have step: "run_loop_ET (Some xs) (ti # tis) b = run_loop_ET (Some xs) tis ?b''"
    using Cons.prems(1,4,5) u
    by (simp add: rain_getitem_def ET_getitem_def getitem_def Q_append_def)
  have "\<exists>b' qs'. run_loop_ET (Some xs) tis ?b'' = (None, b') \<and> Q b' = Some ((qs @ [q]) @ qs')
           \<and> length qs' = length tis \<and> rain b' = rain ?b''"
    using Cons.prems(1,5) ne te by (intro Cons.IH) simp_all
  then obtain b' qs' where "run_loop_ET (Some xs) tis ?b'' = (None, b')"
    "Q b' = Some (qs @ (q # qs'))" "length (q # qs') = length (ti # tis)" "rain b' = rain b"
    by auto
  then show ?case using step by metis
qed

text \<open>
  With the rainfall series passed as argument the run goes through every step and
  leaves one discharge value for each.
\<close>

lemma run_with_rain_argument:
  assumes "reservoirs b \<noteq> []" and "\<forall>r\<in>set (reservoirs b). to_real (t_efold r) \<noteq> 0"
    and "ET_arg \<longrightarrow> (\<exists>ys. ET b = Some (ET_series ys) \<and> length xs \<le> length ys)"
  shows "\<exists>b' qs. run b (Some xs) ET_arg = (None, b') \<and> Q b' = Some qs
           \<and> length qs = length xs \<and> rain b' = Some xs"
proof -
  let ?b3 = "b\<lparr>Q := Some [], rain := Some xs,
                time := Some (map (\<lambda>k. real k * to_real (dt b)) [0..<length xs])\<rparr>"
  have r: "run b (Some xs) ET_arg
           = (if ET_arg then run_loop_ET (Some xs) [0..<length xs] ?b3
              else run_loop (Some xs) [0..<length xs] ?b3)"
    by (simp add: run_def set_rainfall_time_series_def Let_def)
  have z: "0 \<notin> set (map (\<lambda>r. to_real (t_efold r)) (reservoirs ?b3))" using assms(2) by auto
  show ?thesis
  proof (cases ET_arg)
    case True
    then obtain ys where ys: "ET b = Some (ET_series ys)" "length xs \<le> length ys"
      using assms(3) by blast
    have "\<exists>b' qs'. run_loop_ET (Some xs) [0..<length xs] ?b3 = (None, b')
            \<and> Q b' = Some ([] @ qs')
            \<and> length qs' = length [0..<length xs] \<and> rain b' = rain ?b3"
      using assms(1) z ys by (intro run_loop_ET_ok [where ys = ys]) simp_all
    then show ?thesis using r True by auto
  next
    case False
    have "\<exists>b' qs'. run_loop (Some xs) [0..<length xs] ?b3 = (None, b')
            \<and> Q b' = Some ([] @ qs')
            \<and> length qs' = length [0..<length xs] \<and> rain b' = rain ?b3"
      using assms(1) z by (intro run_loop_ok) simp_all
    then show ?thesis using r False by auto
  qed
qed

subsection \<open>A run with the rainfall configured beforehand\<close>

lemma run_loop_no_argument:
  "tis \<noteq> [] \<Longrightarrow> run_loop None tis b = (Some TypeError, b)"
  "tis \<noteq> [] \<Longrightarrow> run_loop_ET None tis b = (Some TypeError, b)"
  by (cases tis; simp add: rain_getitem_def)+

text \<open>
  When the series was stored by \<^verbatim>\<open>set_rainfall_time_series\<close> and the argument is left
  out, both loops still read \<^verbatim>\<open>rain[ti]\<close> from the argument, which is \<^verbatim>\<open>None\<close>: the
  first step of a non-empty series raises before \<^verbatim>\<open>update\<close> is called.
\<close>

lemma run_configured_rain_TypeError:
  assumes "rain b = Some (x # xs)"
  shows "run b None ET_arg
         = (Some TypeError,
            b\<lparr>Q := Some [],
              time := Some (map (\<lambda>k. real k * to_real (dt b)) [0..<length (x # xs)])\<rparr>)"
  using assms by (simp add: run_def Let_def run_loop_no_argument)

text \<open>
  Claim C7 says that \<^verbatim>\<open>run\<close> goes through every step of the rainfall series, appending
  each step's discharge to \<^verbatim>\<open>Q\<close>, so that \<^verbatim>\<open>Q\<close> is as long as the series, whether the
  series is passed as argument or was configured beforehand. With the series
  \<open>[10, 0, 0, 0]\<close> configured by \<^verbatim>\<open>set_rainfall_time_series\<close> and \<^verbatim>\<open>run()\<close> called
  without argument, the run ends in a \<^verbatim>\<open>TypeError\<close> at the first step: \<^verbatim>\<open>Q\<close> is empty,
  the series has four values, and the reservoir has not been touched.
\<close>

theorem run_configured_rain_fails:
  "run (set_rainfall_time_series (buckets_init [reservoir_init (PyFloat 5) 1 Infinite] (PyFloat 1)) [10, 0, 0, 0])
       None False
   = (Some TypeError,
      (buckets_init [reservoir_init (PyFloat 5) 1 Infinite] (PyFloat 1))
        \<lparr>rain := Some [10, 0, 0, 0], Q := Some [], time := Some [0, 1, 2, 3]\<rparr>)"
  using run_configured_rain_TypeError
    [of "set_rainfall_time_series (buckets_init [reservoir_init (PyFloat 5) 1 Infinite] (PyFloat 1)) [10, 0, 0, 0]"
        10 "[0, 0, 0]" False]
  by (simp add: set_rainfall_time_series_def buckets_init_def upt_rec)

subsection \<open>A run without rainfall\<close>

text \<open>
  Claim C8. When no rainfall series is available (none passed, none configured),
  \<^verbatim>\<open>run\<close> ends with the \<^verbatim>\<open>SystemExit\<close> of \<^verbatim>\<open>sys.exit\<close> before any step: the reservoirs
  are as they were, so \<^verbatim>\<open>update\<close> has not been called, no time axis has been built,
  and \<^verbatim>\<open>Q\<close> holds no discharge value. The state differs from the one before the call in
  \<^verbatim>\<open>Q\<close> only.
\<close>

theorem run_without_rainfall_exits:
  assumes "rain b = None"
  shows "run b None ET_arg
         = (Some (SystemExit ''Please set the rainfall time series''), b\<lparr>Q := Some []\<rparr>)"
  using assms by (simp add: run_def)

theorem run_without_rainfall_exits_witness:
  "rain (buckets_init [reservoir_init (PyFloat 5) 1 Infinite] (PyFloat 1)) = None
   \<and> run (buckets_init [reservoir_init (PyFloat 5) 1 Infinite] (PyFloat 1)) None False
       = (Some (SystemExit ''Please set the rainfall time series''),
          (buckets_init [reservoir_init (PyFloat 5) 1 Infinite] (PyFloat 1))\<lparr>Q := Some []\<rparr>)"
  using run_without_rainfall_exits [of "buckets_init [reservoir_init (PyFloat 5) 1 Infinite] (PyFloat 1)" False]
  by (simp add: buckets_init_def)

lemma Q_reset_changes_state: "Q b \<noteq> Some [] \<Longrightarrow> b\<lparr>Q := Some []\<rparr> \<noteq> b"
proof
  assume "Q b \<noteq> Some []" and "b\<lparr>Q := Some []\<rparr> = b"
  then have "Q (b\<lparr>Q := Some []\<rparr>) \<noteq> Some []" by simp
  then show False by simp
qed

text \<open>
  Claim C10. \<^verbatim>\<open>run\<close> assigns the empty list to \<^verbatim>\<open>Q\<close> before it looks for a rainfall
  series. So when it fails for want of one, \<^verbatim>\<open>Q\<close> is empty afterwards whatever it held
  before, and the state has changed on the error path unless \<^verbatim>\<open>Q\<close> was empty already.
\<close>

theorem run_resets_Q_before_check:
  assumes "rain b = None"
  shows "fst (run b None ET_arg) = Some (SystemExit ''Please set the rainfall time series'')
         \<and> Q (snd (run b None ET_arg)) = Some []
         \<and> (Q b \<noteq> Some [] \<longrightarrow> snd (run b None ET_arg) \<noteq> b)"
proof -
  have "run b None ET_arg
        = (Some (SystemExit ''Please set the rainfall time series''), b\<lparr>Q := Some []\<rparr>)"
    using assms by (simp add: run_def)
  then show ?thesis using Q_reset_changes_state [of b] by simp
qed

theorem run_resets_Q_before_check_witness:
  "rain ((buckets_init [reservoir_init (PyFloat 5) 1 Infinite] (PyFloat 1))\<lparr>Q := Some [3, 2]\<rparr>) = None
   \<and> Q ((buckets_init [reservoir_init (PyFloat 5) 1 Infinite] (PyFloat 1))\<lparr>Q := Some [3, 2]\<rparr>) \<noteq> Some []
   \<and> fst (run ((buckets_init [reservoir_init (PyFloat 5) 1 Infinite] (PyFloat 1))\<lparr>Q := Some [3, 2]\<rparr>) None False)
       = Some (SystemExit ''Please set the rainfall time series'')
   \<and> Q (snd (run ((buckets_init [reservoir_init (PyFloat 5) 1 Infinite] (PyFloat 1))\<lparr>Q := Some [3, 2]\<rparr>) None False))
       = Some []
   \<and> snd (run ((buckets_init [reservoir_init (PyFloat 5) 1 Infinite] (PyFloat 1))\<lparr>Q := Some [3, 2]\<rparr>) None False)
       \<noteq> (buckets_init [reservoir_init (PyFloat 5) 1 Infinite] (PyFloat 1))\<lparr>Q := Some [3, 2]\<rparr>"
  using run_resets_Q_before_check
    [of "(buckets_init [reservoir_init (PyFloat 5) 1 Infinite] (PyFloat 1))\<lparr>Q := Some [3, 2]\<rparr>" False]
  by (simp add: buckets_init_def)

section \<open>The evapotranspiration formula\<close>

lemma float_pow_nonneg:
  "0 \<le> x \<Longrightarrow> 0 < y \<Longrightarrow> float_pow x y = Inr (x powr y)"
  by (simp add: float_pow_def)

lemma float_pow_negative_fractional:
  "x < 0 \<Longrightarrow> y \<noteq> of_int \<lfloor>y\<rfloor> \<Longrightarrow> float_pow x y = Inl ValueError"
  by (auto simp: float_pow_def)

text \<open>The constants of the constructor: the exponent lies strictly between 1 and 2.\<close>

lemma Chang_I_init: "Chang_I (buckets_init rs tstep) = 41.47044637"
  by (simp add: buckets_init_def)

lemma Chang_a_i_bounds:
  "1 < Chang_a_i (buckets_init rs tstep) \<and> Chang_a_i (buckets_init rs tstep) < 2"
  by (simp add: buckets_init_def power3_eq_cube power2_eq_square)

lemma Chang_a_i_floor: "\<lfloor>Chang_a_i (buckets_init rs tstep)\<rfloor> = 1"
  using Chang_a_i_bounds [of rs tstep] by (simp add: floor_eq_iff)

lemma Chang_a_i_fractional:
  "Chang_a_i (buckets_init rs tstep) \<noteq> of_int \<lfloor>Chang_a_i (buckets_init rs tstep)\<rfloor>"
  using Chang_a_i_bounds [of rs tstep] by (simp add: Chang_a_i_floor)

text \<open>
  From an effective temperature of 0 upwards the three regimes are as described: zero
  at 0, the power law strictly between 0 and 26, the polynomial from 26 on.
\<close>

lemma Chang_regimes:
  assumes "0 < Chang_I b" and "0 < Chang_a_i b"
    and "Teff = 0.5 * 0.69 * (3 * Tmax - Tmin)" and "0 \<le> Teff"
  shows "evapotranspirationChang2019 b Tmax Tmin photoperiod =
           Inr (b\<lparr>ET := Some (ET_scalar
             (if Teff \<ge> 26 then photoperiod / 360 * (- 415.85 + 32.24 * Teff - 0.43 * Teff ^ 2)
              else if Teff > 0
                then 16 * (photoperiod / 360) * (10 * Teff / Chang_I b) powr Chang_a_i b
              else 0))\<rparr>)"
proof -
  have "0 \<le> 10 * Teff / Chang_I b" using assms(1,4) by simp
  then have "float_pow (10 * Teff / Chang_I b) (Chang_a_i b)
             = Inr ((10 * Teff / Chang_I b) powr Chang_a_i b)"
    using assms(2) by (rule float_pow_nonneg)
  then show ?thesis
    using assms(1,4) unfolding evapotranspirationChang2019_def Let_def assms(3) [symmetric]
    by simp
qed

text \<open>
  Below 0 the power is still evaluated, on a negative base with a fractional exponent,
  and raises: the factor \<^verbatim>\<open>(Teff > 0)\<close> is never reached.
\<close>

lemma Chang_negative_raises:
  assumes "0 < Chang_I b" and "Chang_a_i b \<noteq> of_int \<lfloor>Chang_a_i b\<rfloor>"
    and "0.5 * 0.69 * (3 * Tmax - Tmin) < 0"
  shows "evapotranspirationChang2019 b Tmax Tmin photoperiod = Inl ValueError"
proof -
  have "10 * (0.5 * 0.69 * (3 * Tmax - Tmin)) / Chang_I b < 0"
    using assms(1,3) by (simp add: divide_neg_pos)
  then have "float_pow (10 * (0.5 * 0.69 * (3 * Tmax - Tmin)) / Chang_I b) (Chang_a_i b)
             = Inl ValueError"
    using assms(2) by (rule float_pow_negative_fractional)
  then show ?thesis
    using assms(1) unfolding evapotranspirationChang2019_def Let_def by simp
qed

text \<open>
  Claim C9 says that the formula yields 0 whenever the effective temperature is at most
  0, the power law between 0 and 26 and the polynomial from 26 on. For
  \<open>Tmax = Tmin = - 10\<close> the effective temperature is \<open>- 6.9\<close>, and the call raises
  \<^verbatim>\<open>ValueError\<close> instead of storing 0.
\<close>

theorem Chang_below_zero_raises:
  "0.5 * 0.69 * (3 * (- 10) - (- 10)) = (- 6.9 :: real)
   \<and> evapotranspirationChang2019 (buckets_init [reservoir_init (PyFloat 5) 1 Infinite] (PyFloat 1)) (- 10) (- 10) 12
       = Inl ValueError"
proof -
  have "evapotranspirationChang2019 (buckets_init [reservoir_init (PyFloat 5) 1 Infinite] (PyFloat 1)) (- 10) (- 10) 12
        = Inl ValueError"
    by (rule Chang_negative_raises) (simp_all add: Chang_I_init Chang_a_i_fractional)
  then show ?thesis by simp
qed

end
